theory Spec2Isabelle
  imports Main "HOL-Library.Word" "HOL-Library.Sublist"
begin

unbundle bit_operations_syntax

section \<open>The mountd process killer (ProcessKiller.c)\<close>

text \<open>
  A C string is modelled by the list of the bytes that come before its terminating NUL.
  Reading the string at the index equal to its length gives the terminator; the
  code never reads further than that.
\<close>

definition NUL :: char where
  "NUL = CHR 0x00"

definition PATH_MAX :: nat where
  "PATH_MAX = 4096"

definition strlen :: "string \<Rightarrow> nat" where
  "strlen s = length s"

text \<open>\<open>s[i]\<close> for \<open>i \<le> strlen s\<close>: the byte at \<open>i\<close>, the terminator at the end.\<close>

definition char_at :: "string \<Rightarrow> nat \<Rightarrow> char" where
  "char_at s i = (if i < length s then s ! i else NUL)"

text \<open>
  \<open>strncmp\<close> of the C library: compares at most \<open>n\<close> bytes and stops at the first
  difference or at the end of both strings. Only the sign of the result is fixed by
  the C standard; the model returns \<open>-1\<close>, \<open>0\<close> or \<open>1\<close>.
\<close>

fun strncmp :: "string \<Rightarrow> string \<Rightarrow> nat \<Rightarrow> int" where
  "strncmp s1 s2 0 = 0"
| "strncmp [] [] (Suc n) = 0"
| "strncmp [] (c2 # s2) (Suc n) = - 1"
| "strncmp (c1 # s1) [] (Suc n) = 1"
| "strncmp (c1 # s1) (c2 # s2) (Suc n) =
     (if c1 = c2 then strncmp s1 s2 n
      else if (of_char c1 :: nat) < of_char c2 then - 1 else 1)"

subsection \<open>PathMatchesMountPoint\<close>

definition PathMatchesMountPoint :: "string \<Rightarrow> string \<Rightarrow> bool" where
  "PathMatchesMountPoint path mountPoint =
     (let len = strlen mountPoint in
      if len > 1 \<and> strncmp path mountPoint len = 0 then
        if char_at mountPoint (len - 1) = CHR ''/'' then True
        else (char_at path len = NUL \<or> char_at path len = CHR ''/'')
      else False)"

subsection \<open>The kernel interface and what a run leaves behind\<close>

text \<open>
  The process file system is read through four calls. Each is a function of the path:
  \<open>lstat\<close> gives the \<open>st_mode\<close> of the entry or fails; \<open>readlink\<close> gives the whole
  target of a link or fails (the caller's buffer size cuts it); \<open>opendir\<close> gives the
  entry names in enumeration order or fails; opening a file for reading fails, or
  succeeds with reads that fail, or succeeds with the bytes of the file.
\<close>

datatype file_node = CannotOpen | ReadFails | Bytes string

record procfs =
  sys_lstat :: "string \<Rightarrow> 32 word option"
  sys_readlink :: "string \<Rightarrow> string option"
  sys_opendir :: "string \<Rightarrow> string list option"
  sys_open :: "string \<Rightarrow> file_node"

datatype signal = SIGHUP | SIGKILL | SIGTERM

text \<open>
  A log call is kept as its format string and arguments. The process name is an
  argument of its own kind, since \<open>GetProcessName\<close> can leave it undefined.
\<close>

datatype log_arg = ArgS string | ArgD int | ArgName "string option"

datatype event =
    Lstat string
  | Readlink string
  | Opendir string
  | Fopen string
  | Open string
  | LOGE string "log_arg list"
  | LOGW string "log_arg list"
  | Kill int signal

text \<open>
  A function of the source that returns \<open>int\<close> as a truth value and performs calls
  returns a pair here: the value and the events, in the order they happen.
\<close>

definition after :: "event list \<Rightarrow> bool \<times> event list \<Rightarrow> bool \<times> event list" where
  "after t r = (fst r, t @ snd r)"

text \<open>The operator \<open>||\<close> of C: the right operand is evaluated only when the left is 0.\<close>

definition orelse :: "bool \<times> event list \<Rightarrow> bool \<times> event list \<Rightarrow> bool \<times> event list" where
  "orelse a b = (if fst a then a else after (snd a) b)"

subsection \<open>The conversion \<open>%d\<close> of sprintf\<close>

definition digit_char :: "nat \<Rightarrow> char" where
  "digit_char d = ''0123456789'' ! d"

function dec_nat :: "nat \<Rightarrow> string" where
  "dec_nat n = (if n < 10 then [digit_char n] else dec_nat (n div 10) @ [digit_char (n mod 10)])"
  by pat_completeness auto
termination
  by (relation "measure (\<lambda>n. n)") auto

declare dec_nat.simps [simp del]

definition fmt_d :: "int \<Rightarrow> string" where
  "fmt_d i = (if i < 0 then CHR ''-'' # dec_nat (nat (- i)) else dec_nat (nat i))"

subsection \<open>ReadSymLink\<close>

definition S_IFMT :: "32 word" where
  "S_IFMT = 0xF000"

definition S_IFLNK :: "32 word" where
  "S_IFLNK = 0xA000"

text \<open>
  The source returns 1 with the target in \<open>link\<close>, or 0; the model returns the target
  or \<open>None\<close>. \<open>readlink\<close> stores at most \<open>PATH_MAX - 1\<close> bytes and returns their number.
\<close>

definition ReadSymLink :: "procfs \<Rightarrow> string \<Rightarrow> string option \<times> event list" where
  "ReadSymLink fs path =
     (case sys_lstat fs path of
        None \<Rightarrow> (None, [Lstat path])
      | Some st_mode \<Rightarrow>
          if st_mode AND S_IFMT \<noteq> S_IFLNK then (None, [Lstat path])
          else (case sys_readlink fs path of
                  None \<Rightarrow> (None, [Lstat path, Readlink path])
                | Some target \<Rightarrow>
                    (let link = take (PATH_MAX - 1) target in
                     if int (length link) \<le> 0 then (None, [Lstat path, Readlink path])
                     else (Some link, [Lstat path, Readlink path]))))"

subsection \<open>GetProcessName\<close>

text \<open>The C string held by a buffer: its bytes up to the first NUL.\<close>

definition c_str :: "string \<Rightarrow> string" where
  "c_str buffer = takeWhile (\<lambda>c. c \<noteq> NUL) buffer"

text \<open>
  When the file opens, \<open>read\<close> returns the number of bytes stored, at most
  \<open>PATH_MAX - 1\<close>, and the source stores a NUL at that index. When \<open>read\<close> fails it
  returns \<open>-1\<close> and the store \<open>buffer[-1] = 0\<close> falls outside the buffer: the name is
  then not defined, which the model records as \<open>None\<close>.
\<close>

definition GetProcessName :: "procfs \<Rightarrow> int \<Rightarrow> string option \<times> event list" where
  "GetProcessName fs pid =
     (let buffer = ''/proc/'' @ fmt_d pid @ ''/cmdline'' in
      case sys_open fs buffer of
        CannotOpen \<Rightarrow> (Some ''???'', [Open buffer])
      | ReadFails \<Rightarrow> (None, [Open buffer])
      | Bytes content \<Rightarrow> (Some (c_str (take (PATH_MAX - 1) content)), [Open buffer]))"

subsection \<open>CheckFileDescriptorSymLinks\<close>

fun fd_loop :: "procfs \<Rightarrow> int \<Rightarrow> string \<Rightarrow> string \<Rightarrow> string list \<Rightarrow> bool \<times> event list" where
  "fd_loop fs pid mountPoint parent [] = (False, [])"
| "fd_loop fs pid mountPoint parent (d_name # rest) =
     (if d_name = ''.'' \<or> d_name = ''..'' then fd_loop fs pid mountPoint parent rest
      else
        (let r = ReadSymLink fs (parent @ d_name) in
         case fst r of
           None \<Rightarrow> after (snd r) (fd_loop fs pid mountPoint parent rest)
         | Some link \<Rightarrow>
             if PathMatchesMountPoint link mountPoint then
               (let name = GetProcessName fs pid in
                (True, snd r @ snd name @
                   [LOGE ''Process %s (%d) has open file %s''
                      [ArgName (fst name), ArgD pid, ArgS link]]))
             else after (snd r) (fd_loop fs pid mountPoint parent rest)))"

definition CheckFileDescriptorSymLinks :: "procfs \<Rightarrow> int \<Rightarrow> string \<Rightarrow> bool \<times> event list" where
  "CheckFileDescriptorSymLinks fs pid mountPoint =
     (let path = ''/proc/'' @ fmt_d pid @ ''/fd'' in
      case sys_opendir fs path of
        None \<Rightarrow> (False, [Opendir path])
      | Some entries \<Rightarrow> after [Opendir path] (fd_loop fs pid mountPoint (path @ ''/'') entries))"

subsection \<open>CheckFileMaps\<close>

text \<open>
  \<open>fgets\<close> with a buffer of \<open>size\<close> bytes takes at most \<open>size - 1\<close> bytes from the
  stream and stops after a newline, which it keeps. \<open>fgets_chunk n\<close> is what one call
  with room for \<open>n\<close> bytes takes; \<open>fgets_lines\<close> is the sequence of buffers that
  repeated calls deliver until the end of the file.
\<close>

fun fgets_chunk :: "nat \<Rightarrow> string \<Rightarrow> string" where
  "fgets_chunk n [] = []"
| "fgets_chunk n (c # s) =
     (if n = 0 then [] else if c = CHR 0x0A then [c] else c # fgets_chunk (n - 1) s)"

function fgets_lines :: "string \<Rightarrow> string list" where
  "fgets_lines stream =
     (if stream = [] then []
      else (let chunk = fgets_chunk (PATH_MAX + 100 - 1) stream
            in chunk # fgets_lines (drop (length chunk) stream)))"
  by pat_completeness auto
termination
proof (relation "measure length")
  show "wf (measure length)" by simp
next
  fix stream :: string and chunk
  assume "stream \<noteq> []" and "chunk = fgets_chunk (PATH_MAX + 100 - 1) stream"
  then have "0 < length chunk"
    by (cases stream) (simp_all add: PATH_MAX_def)
  with \<open>stream \<noteq> []\<close> show "(drop (length chunk) stream, stream) \<in> measure length"
    by simp
qed

declare fgets_lines.simps [simp del]

text \<open>\<open>strchr\<close>: the rest of the string from the first occurrence of the byte, or NULL.\<close>

definition strchr :: "string \<Rightarrow> char \<Rightarrow> string option" where
  "strchr s c = (case dropWhile (\<lambda>x. x \<noteq> c) s of [] \<Rightarrow> None | r # rs \<Rightarrow> Some (r # rs))"

fun maps_loop :: "procfs \<Rightarrow> int \<Rightarrow> string \<Rightarrow> string list \<Rightarrow> bool \<times> event list" where
  "maps_loop fs pid mountPoint [] = (False, [])"
| "maps_loop fs pid mountPoint (buffer # rest) =
     (case strchr (c_str buffer) CHR ''/'' of
        None \<Rightarrow> maps_loop fs pid mountPoint rest
      | Some path \<Rightarrow>
          if PathMatchesMountPoint path mountPoint then
            (let name = GetProcessName fs pid in
             (True, snd name @
                [LOGE ''process %s (%d) has open file map for %s''
                   [ArgName (fst name), ArgD pid, ArgS path]]))
          else maps_loop fs pid mountPoint rest)"

definition CheckFileMaps :: "procfs \<Rightarrow> int \<Rightarrow> string \<Rightarrow> bool \<times> event list" where
  "CheckFileMaps fs pid mountPoint =
     (let buffer = ''/proc/'' @ fmt_d pid @ ''/maps'' in
      case sys_open fs buffer of
        CannotOpen \<Rightarrow> (False, [Fopen buffer])
      | ReadFails \<Rightarrow> (False, [Fopen buffer])
      | Bytes content \<Rightarrow> after [Fopen buffer] (maps_loop fs pid mountPoint (fgets_lines content)))"

subsection \<open>CheckSymLink\<close>

definition CheckSymLink :: "procfs \<Rightarrow> int \<Rightarrow> string \<Rightarrow> string \<Rightarrow> string \<Rightarrow> bool \<times> event list" where
  "CheckSymLink fs pid mountPoint name message =
     (let path = ''/proc/'' @ fmt_d pid @ ''/'' @ name;
          r = ReadSymLink fs path in
      case fst r of
        None \<Rightarrow> (False, snd r)
      | Some link \<Rightarrow>
          if PathMatchesMountPoint link mountPoint then
            (let pname = GetProcessName fs pid in
             (True, snd r @ snd pname @
                [LOGW ''Process %s (%d) has %s in %s''
                   [ArgName (fst pname), ArgD pid, ArgS message, ArgS mountPoint]]))
          else (False, snd r))"

subsection \<open>get_pid\<close>

definition isdigit :: "char \<Rightarrow> bool" where
  "isdigit c = (48 \<le> (of_char c :: nat) \<and> (of_char c :: nat) \<le> 57)"

text \<open>
  The accumulator is a C \<open>int\<close>: a 32-bit word read as two's complement. Where the
  decimal value does not fit, C leaves the result undefined; the model wraps around,
  as the arithmetic of the machine does. \<open>isdigit\<close> is true of the bytes \<open>0\<close> to \<open>9\<close>.
\<close>

fun get_pid_loop :: "32 word \<Rightarrow> string \<Rightarrow> int" where
  "get_pid_loop result [] = sint result"
| "get_pid_loop result (c # s) =
     (if \<not> isdigit c then - 1
      else get_pid_loop (10 * result + (word_of_nat (of_char c) - 48)) s)"

definition get_pid :: "string \<Rightarrow> int" where
  "get_pid s = get_pid_loop 0 s"

subsection \<open>KillProcessesWithOpenFiles\<close>

text \<open>The condition of the \<open>if\<close> in the loop body: the five checks joined by \<open>||\<close>.\<close>

definition holds :: "procfs \<Rightarrow> int \<Rightarrow> string \<Rightarrow> bool \<times> event list" where
  "holds fs pid mountPoint =
     orelse (CheckFileDescriptorSymLinks fs pid mountPoint)
    (orelse (CheckFileMaps fs pid mountPoint)
    (orelse (CheckSymLink fs pid mountPoint ''cwd'' ''working directory'')
    (orelse (CheckSymLink fs pid mountPoint ''root'' ''chroot'')
            (CheckSymLink fs pid mountPoint ''exe'' ''executable path''))))"

text \<open>One turn of the loop over \<open>/proc\<close>, for the entry named \<open>d_name\<close>.\<close>

definition kill_entry :: "procfs \<Rightarrow> string \<Rightarrow> int \<Rightarrow> string \<Rightarrow> event list" where
  "kill_entry fs mountPoint action d_name =
     (let pid = get_pid d_name in
      if pid = - 1 then []
      else
        (let h = holds fs pid mountPoint in
         if fst h then
           if action = 1 then
             snd h @ [LOGW ''Sending SIGHUP to process %d'' [ArgD pid], Kill pid SIGTERM]
           else if action = 2 then
             snd h @ [LOGE ''Sending SIGKILL to process %d'' [ArgD pid], Kill pid SIGKILL]
           else snd h
         else snd h))"

fun kill_loop :: "procfs \<Rightarrow> string \<Rightarrow> int \<Rightarrow> string list \<Rightarrow> event list" where
  "kill_loop fs mountPoint action [] = []"
| "kill_loop fs mountPoint action (d_name # rest) =
     kill_entry fs mountPoint action d_name @ kill_loop fs mountPoint action rest"

definition KillProcessesWithOpenFiles :: "procfs \<Rightarrow> string \<Rightarrow> int \<Rightarrow> event list" where
  "KillProcessesWithOpenFiles fs mountPoint action =
     (case sys_opendir fs ''/proc'' of
        None \<Rightarrow> [Opendir ''/proc'']
      | Some entries \<Rightarrow> Opendir ''/proc'' # kill_loop fs mountPoint action entries)"

subsection \<open>Reading a run\<close>

text \<open>The signals a run delivers, in order: the \<open>kill\<close> calls of its events.\<close>

fun signals :: "event list \<Rightarrow> (int \<times> signal) list" where
  "signals [] = []"
| "signals (Kill pid sig # t) = (pid, sig) # signals t"
| "signals (e # t) = signals t"

text \<open>The pids among the entries of \<open>/proc\<close> that the five checks find holding.\<close>

definition holders :: "procfs \<Rightarrow> string \<Rightarrow> string list \<Rightarrow> int list" where
  "holders fs mountPoint entries =
     [get_pid d. d \<leftarrow> entries, get_pid d \<noteq> - 1, fst (holds fs (get_pid d) mountPoint)]"

subsection \<open>A small process table\<close>

text \<open>
  Six processes. Process 1 lets nothing be read. Process 42 has \<open>/mnt/vol/data.bin\<close>
  open as descriptor 3. Process 7 has no descriptor directory to read, maps
  \<open>/mnt/vol/lib.so\<close>, and its command line cannot be opened. Process 9 has its working
  directory in \<open>/mnt/vol/sub\<close> and a neighbour volume \<open>/mnt/volume2\<close> open; the link
  of its descriptor 4 is there for \<open>lstat\<close> and gone for \<open>readlink\<close>. Process 11 has
  \<open>/mnt/vol\<close> as its root directory, process 12 runs \<open>/mnt/vol/bin/tool\<close>.
\<close>

definition S_IFLNK_0777 :: "32 word" where
  "S_IFLNK_0777 = 0xA1FF"

definition example_fs :: procfs where
  "example_fs =
     \<lparr> sys_lstat = map_of
         [(''/proc/42/fd/0'', S_IFLNK_0777), (''/proc/42/fd/3'', S_IFLNK_0777),
          (''/proc/42/cwd'', S_IFLNK_0777), (''/proc/42/root'', S_IFLNK_0777),
          (''/proc/42/exe'', S_IFLNK_0777),
          (''/proc/9/fd/4'', S_IFLNK_0777), (''/proc/9/fd/5'', S_IFLNK_0777),
          (''/proc/9/cwd'', S_IFLNK_0777), (''/proc/9/root'', S_IFLNK_0777),
          (''/proc/9/exe'', S_IFLNK_0777), (''/proc/9/maps'', 0x8124),
          (''/proc/11/root'', S_IFLNK_0777),
          (''/proc/12/cwd'', S_IFLNK_0777), (''/proc/12/root'', S_IFLNK_0777),
          (''/proc/12/exe'', S_IFLNK_0777)],
       sys_readlink = map_of
         [(''/proc/42/fd/0'', ''/dev/null''), (''/proc/42/fd/3'', ''/mnt/vol/data.bin''),
          (''/proc/42/cwd'', ''/''), (''/proc/42/root'', ''/''),
          (''/proc/42/exe'', ''/system/bin/app''),
          (''/proc/9/fd/5'', ''/mnt/volume2/x''),
          (''/proc/9/cwd'', ''/mnt/vol/sub''), (''/proc/9/root'', ''/''),
          (''/proc/9/exe'', ''/system/bin/sh''),
          (''/proc/11/root'', ''/mnt/vol''),
          (''/proc/12/cwd'', ''/''), (''/proc/12/root'', ''/''),
          (''/proc/12/exe'', ''/mnt/vol/bin/tool'')],
       sys_opendir = map_of
         [(''/proc'', [''.'', ''..'', ''1'', ''42'', ''self'', ''7'', ''9'', ''11'', ''12'', ''uptime'']),
          (''/proc/42/fd'', [''.'', ''..'', ''0'', ''3'']),
          (''/proc/9/fd'', [''.'', ''..'', ''4'', ''5''])],
       sys_open = (\<lambda>p.
          if p = ''/proc/42/cmdline'' then Bytes (''app'' @ [NUL] @ ''--verbose'' @ [NUL])
          else if p = ''/proc/9/cmdline'' then Bytes (''sh'' @ [NUL])
          else if p = ''/proc/11/cmdline'' then Bytes (''jailed'' @ [NUL])
          else if p = ''/proc/12/cmdline'' then Bytes (''/mnt/vol/bin/tool'' @ [NUL] @ ''-d'' @ [NUL])
          else if p = ''/proc/42/maps'' then
            Bytes (''00008000-00010000 r-xp 00000000 b3:01 77 /system/bin/app'' @ [CHR 0x0A])
          else if p = ''/proc/7/maps'' then
            Bytes (''beb00000-beb21000 rw-p 00000000 00:00 0 [stack]'' @ [CHR 0x0A] @
                   ''40000000-40010000 r-xp 00000000 b3:02 12 /mnt/vol/lib.so'' @ [CHR 0x0A])
          else if p = ''/proc/9/maps'' then ReadFails
          else CannotOpen) \<rparr>"

subsection \<open>The decimal value of a name\<close>

text \<open>
  The number a string of decimal digits denotes, written from the words of the
  specification and not from \<open>get_pid\<close>: the unbounded value, most significant digit
  first.
\<close>

definition decimal :: "string \<Rightarrow> nat" where
  "decimal s = foldl (\<lambda>a c. 10 * a + (of_char c - 48)) 0 s"

subsection \<open>Links of every kind\<close>

text \<open>
  A mode of 0120777 is a symbolic link, 040555 a directory, 0100444 a regular file.
  The entry \<open>gone\<close> is a link when \<open>lstat\<close> looks and cannot be read any more; the
  target of \<open>long\<close> has 5000 bytes; the target of \<open>blank\<close> has none.
\<close>

definition link_fs :: procfs where
  "link_fs =
     \<lparr> sys_lstat = map_of
         [(''/proc/42/cwd'', 0xA1FF), (''/proc/42/long'', 0xA1FF),
          (''/proc/42/gone'', 0xA1FF), (''/proc/42/blank'', 0xA1FF),
          (''/proc/42/fd'', 0x416D), (''/proc/42/maps'', 0x8124)],
       sys_readlink = map_of
         [(''/proc/42/cwd'', ''/mnt/vol/sub''),
          (''/proc/42/long'', replicate 5000 CHR ''a''),
          (''/proc/42/blank'', [])],
       sys_opendir = (\<lambda>p. None),
       sys_open = (\<lambda>p. CannotOpen) \<rparr>"

subsection \<open>Runs that differ in the command lines only\<close>

definition cmdline_path :: "int \<Rightarrow> string" where
  "cmdline_path pid = ''/proc/'' @ fmt_d pid @ ''/cmdline''"

text \<open>
  Two states of the process file system are the same but for the command lines when
  every call answers alike except the opening of a \<open>cmdline\<close> file.
\<close>

definition same_but_cmdline :: "procfs \<Rightarrow> procfs \<Rightarrow> bool" where
  "same_but_cmdline fs fs' \<longleftrightarrow>
     sys_lstat fs' = sys_lstat fs \<and> sys_readlink fs' = sys_readlink fs \<and>
     sys_opendir fs' = sys_opendir fs \<and>
     (\<forall>p. (\<forall>q. p \<noteq> cmdline_path q) \<longrightarrow> sys_open fs' p = sys_open fs p)"

fun is_Open :: "event \<Rightarrow> bool" where
  "is_Open (Open p) = True"
| "is_Open e = False"

fun is_log :: "event \<Rightarrow> bool" where
  "is_log (LOGE fmt args) = True"
| "is_log (LOGW fmt args) = True"
| "is_log e = False"

text \<open>
  The command line of \<open>pid\<close> is opened once, as the last call of the run, and only the
  log record follows.
\<close>

definition name_lookup_last :: "int \<Rightarrow> event list \<Rightarrow> bool" where
  "name_lookup_last pid tr =
     (case rev tr of
        l # Open p # t \<Rightarrow> is_log l \<and> p = cmdline_path pid \<and> list_all (\<lambda>e. \<not> is_Open e) t
      | _ \<Rightarrow> False)"

subsection \<open>Two more process tables\<close>

text \<open>
  In \<open>mapped_fs\<close> process 42 maps a file whose path is the mount point \<open>/mnt/vol\<close>
  itself, and its command line has no bytes; the command line of process 43 opens
  and cannot be read. \<open>renamed_fs\<close> is the small process table with other command
  lines.
\<close>

definition mapped_fs :: procfs where
  "mapped_fs =
     \<lparr> sys_lstat = (\<lambda>p. None),
       sys_readlink = (\<lambda>p. None),
       sys_opendir = map_of [(''/proc'', [''.'', ''..'', ''42''])],
       sys_open = (\<lambda>p.
          if p = ''/proc/42/maps'' then
            Bytes (''40000000-40010000 r-xp 00000000 b3:02 12 /mnt/vol'' @ [CHR 0x0A])
          else if p = ''/proc/42/cmdline'' then Bytes []
          else if p = ''/proc/43/cmdline'' then ReadFails
          else CannotOpen) \<rparr>"

definition renamed_fs :: procfs where
  "renamed_fs = example_fs \<lparr> sys_open := (sys_open example_fs)
     (''/proc/42/cmdline'' := ReadFails, ''/proc/9/cmdline'' := Bytes ''/mnt/vol/bin/tool'',
      ''/proc/7/cmdline'' := Bytes []) \<rparr>"

section \<open>Properties\<close>

subsection \<open>String comparison\<close>

lemma strncmp_eq_0_iff:
  "strncmp s1 s2 n = 0 \<longleftrightarrow> take n s1 = take n s2"
  by (induction s1 s2 n rule: strncmp.induct) auto

lemma strncmp_strlen_iff:
  "strncmp path mountPoint (strlen mountPoint) = 0 \<longleftrightarrow> prefix mountPoint path"
  by (metis strncmp_eq_0_iff strlen_def take_all_iff order_refl take_is_prefix
      prefix_def append_eq_conv_conj)

subsection \<open>The path matcher\<close>

lemma char_at_NUL_iff:
  "NUL \<notin> set s \<Longrightarrow> char_at s i = NUL \<longleftrightarrow> length s \<le> i"
  by (metis char_at_def nth_mem not_less)

lemma char_at_last:
  "s \<noteq> [] \<Longrightarrow> char_at s (length s - Suc 0) = last s"
  by (simp add: char_at_def last_conv_nth)

lemma PathMatchesMountPoint_iff:
  "PathMatchesMountPoint path mountPoint \<longleftrightarrow>
     1 < length mountPoint \<and> prefix mountPoint path \<and>
     (last mountPoint = CHR ''/'' \<or> char_at path (length mountPoint) = NUL
        \<or> char_at path (length mountPoint) = CHR ''/'')"
proof (cases "1 < length mountPoint")
  case True
  then have "mountPoint \<noteq> []" by auto
  then show ?thesis
    using strncmp_strlen_iff [of path mountPoint]
    by (auto simp: PathMatchesMountPoint_def Let_def char_at_last strlen_def)
next
  case False
  then show ?thesis
    by (simp add: PathMatchesMountPoint_def Let_def strlen_def)
qed

text \<open>
  Claim C1. \<open>PathMatchesMountPoint\<close> follows the four rules of the path matcher, in
  order: it is false when the mount point has at most one byte; it is false when the
  candidate does not begin with the mount point; it is true when the candidate begins
  with a mount point that ends in a slash; otherwise it is true exactly when the
  candidate ends right after the mount point or goes on with a slash. Nothing matches
  the mount point \<open>/\<close>, and \<open>/mnt/foobar\<close> does not match \<open>/mnt/foo\<close>.
\<close>

theorem PathMatchesMountPoint_rules:
  "(length mountPoint \<le> 1 \<longrightarrow> \<not> PathMatchesMountPoint candidate mountPoint) \<and>
   (\<not> prefix mountPoint candidate \<longrightarrow> \<not> PathMatchesMountPoint candidate mountPoint) \<and>
   (1 < length mountPoint \<and> prefix mountPoint candidate \<and> last mountPoint = CHR ''/''
      \<longrightarrow> PathMatchesMountPoint candidate mountPoint) \<and>
   (1 < length mountPoint \<and> prefix mountPoint candidate \<and> last mountPoint \<noteq> CHR ''/''
      \<and> NUL \<notin> set candidate \<longrightarrow>
      (PathMatchesMountPoint candidate mountPoint \<longleftrightarrow>
         length candidate = length mountPoint \<or>
         (length mountPoint < length candidate \<and> candidate ! length mountPoint = CHR ''/''))) \<and>
   \<not> PathMatchesMountPoint candidate ''/'' \<and>
   \<not> PathMatchesMountPoint ''/mnt/foobar'' ''/mnt/foo''"
proof -
  have r4: "(char_at candidate (length mountPoint) = NUL \<or>
             char_at candidate (length mountPoint) = CHR ''/'') \<longleftrightarrow>
            (length candidate = length mountPoint \<or>
              (length mountPoint < length candidate \<and> candidate ! length mountPoint = CHR ''/''))"
    if "prefix mountPoint candidate" "NUL \<notin> set candidate"
  proof -
    from that(1) have "length mountPoint \<le> length candidate"
      by (rule prefix_length_le)
    with that(2) show ?thesis
      using char_at_NUL_iff [of candidate "length mountPoint"]
      by (auto simp: char_at_def)
  qed
  have p1: "\<not> PathMatchesMountPoint candidate ''/''"
    by (simp add: PathMatchesMountPoint_iff)
  have p2: "\<not> PathMatchesMountPoint ''/mnt/foobar'' ''/mnt/foo''"
    by (simp add: PathMatchesMountPoint_iff char_at_def NUL_def)
  show ?thesis
    using r4 p1 p2 by (auto simp: PathMatchesMountPoint_iff)
qed

theorem PathMatchesMountPoint_rules_witness:
  "\<not> PathMatchesMountPoint ''/mnt/foo'' ''/'' \<and>
   \<not> PathMatchesMountPoint ''/mnt/bar'' ''/mnt/foo'' \<and>
   PathMatchesMountPoint ''/mnt/foo/x'' ''/mnt/foo/'' \<and>
   PathMatchesMountPoint ''/mnt/foo'' ''/mnt/foo'' \<and>
   PathMatchesMountPoint ''/mnt/foo/x'' ''/mnt/foo'' \<and>
   \<not> PathMatchesMountPoint ''/mnt/foobar'' ''/mnt/foo''"
  using PathMatchesMountPoint_rules [of "''/''" "''/mnt/foo''"]
        PathMatchesMountPoint_rules [of "''/mnt/foo''" "''/mnt/bar''"]
        PathMatchesMountPoint_rules [of "''/mnt/foo/''" "''/mnt/foo/x''"]
        PathMatchesMountPoint_rules [of "''/mnt/foo''" "''/mnt/foo''"]
        PathMatchesMountPoint_rules [of "''/mnt/foo''" "''/mnt/foo/x''"]
  by (simp add: NUL_def)

subsection \<open>Results and events of the combinators\<close>

lemma fst_after [simp]: "fst (after t r) = fst r"
  by (simp add: after_def)

lemma snd_after [simp]: "snd (after t r) = t @ snd r"
  by (simp add: after_def)

lemma fst_orelse: "fst (orelse a b) \<longleftrightarrow> fst a \<or> fst b"
  by (simp add: orelse_def)

lemma snd_orelse: "snd (orelse a b) = (if fst a then snd a else snd a @ snd b)"
  by (simp add: orelse_def)

subsection \<open>No check sends a signal\<close>

lemma signals_append [simp]: "signals (s @ t) = signals s @ signals t"
  by (induction s rule: signals.induct) auto

lemma signals_ReadSymLink [simp]: "signals (snd (ReadSymLink fs path)) = []"
  by (auto simp: ReadSymLink_def Let_def split: option.splits)

lemma signals_GetProcessName [simp]: "signals (snd (GetProcessName fs pid)) = []"
  by (auto simp: GetProcessName_def Let_def split: file_node.splits)

lemma signals_fd_loop [simp]: "signals (snd (fd_loop fs pid m parent entries)) = []"
proof (induction entries)
  case Nil
  show ?case by simp
next
  case (Cons d rest)
  then show ?case
    by (simp add: Let_def split: option.splits)
qed

lemma signals_CheckFileDescriptorSymLinks [simp]:
  "signals (snd (CheckFileDescriptorSymLinks fs pid m)) = []"
  by (simp add: CheckFileDescriptorSymLinks_def Let_def split: option.splits)

lemma signals_maps_loop [simp]: "signals (snd (maps_loop fs pid m lines)) = []"
proof (induction lines)
  case Nil
  show ?case by simp
next
  case (Cons l rest)
  then show ?case
    by (simp add: Let_def split: option.splits)
qed

lemma signals_CheckFileMaps [simp]: "signals (snd (CheckFileMaps fs pid m)) = []"
  by (simp add: CheckFileMaps_def Let_def split: file_node.splits)

lemma signals_CheckSymLink [simp]: "signals (snd (CheckSymLink fs pid m name msg)) = []"
  by (simp add: CheckSymLink_def Let_def split: option.splits)

lemma signals_holds [simp]: "signals (snd (holds fs pid m)) = []"
  by (simp add: holds_def snd_orelse)

lemma signals_kill_entry:
  "signals (kill_entry fs m action d) =
     (if get_pid d \<noteq> - 1 \<and> fst (holds fs (get_pid d) m) then
        (if action = 1 then [(get_pid d, SIGTERM)]
         else if action = 2 then [(get_pid d, SIGKILL)] else [])
      else [])"
  by (simp add: kill_entry_def Let_def)

lemma signals_kill_loop:
  "signals (kill_loop fs m action entries) =
     (if action = 1 then map (\<lambda>p. (p, SIGTERM)) (holders fs m entries)
      else if action = 2 then map (\<lambda>p. (p, SIGKILL)) (holders fs m entries)
      else [])"
  by (induction entries) (auto simp: signals_kill_entry holders_def)

subsection \<open>The small process table, evaluated\<close>

lemma example_proc_entries:
  "sys_opendir example_fs ''/proc'' =
     Some [''.'', ''..'', ''1'', ''42'', ''self'', ''7'', ''9'', ''11'', ''12'', ''uptime'']"
  by (simp add: example_fs_def)

lemma example_holders:
  "holders example_fs ''/mnt/vol''
     [''.'', ''..'', ''1'', ''42'', ''self'', ''7'', ''9'', ''11'', ''12'', ''uptime''] = [42, 7, 9, 11, 12]"
  by code_simp

lemma example_get_pid: "get_pid ''42'' = 42" "get_pid ''9'' = 9" "get_pid ''7'' = 7"
  by (simp_all add: get_pid_def isdigit_def)

lemma example_fmt_d:
  "fmt_d 42 = ''42''" "fmt_d 9 = ''9''" "fmt_d 7 = ''7''" "fmt_d 1 = ''1''" "fmt_d 11 = ''11''"
  by (simp_all add: fmt_d_def dec_nat.simps digit_char_def)

lemma example_open_files_42: "fst (CheckFileDescriptorSymLinks example_fs 42 ''/mnt/vol'')"
  by code_simp

lemma example_open_files_9: "\<not> fst (CheckFileDescriptorSymLinks example_fs 9 ''/mnt/vol'')"
  by code_simp

lemma example_cwd_9: "fst (CheckSymLink example_fs 9 ''/mnt/vol'' ''cwd'' ''working directory'')"
  by code_simp

lemma example_holds_42: "fst (holds example_fs 42 ''/mnt/vol'')"
  by code_simp

lemma example_maps_7: "fst (CheckFileMaps example_fs 7 ''/mnt/vol'')"
  by code_simp

lemma example_root_11: "fst (CheckSymLink example_fs 11 ''/mnt/vol'' ''root'' ''chroot'')"
  by code_simp

lemma example_not_42:
  "\<not> fst (CheckFileMaps example_fs 42 ''/mnt/vol'')"
  "\<not> fst (CheckSymLink example_fs 42 ''/mnt/vol'' ''cwd'' ''working directory'')"
  by code_simp+

lemma example_holds_1: "\<not> fst (holds example_fs 1 ''/mnt/vol'')"
  by code_simp

subsection \<open>The holding decision\<close>

lemma snd_GetProcessName:
  "snd (GetProcessName fs pid) = [Open (''/proc/'' @ fmt_d pid @ ''/cmdline'')]"
  by (simp add: GetProcessName_def Let_def split: file_node.splits)

lemma set_ReadSymLink:
  "e \<in> set (snd (ReadSymLink fs path)) \<Longrightarrow> e = Lstat path \<or> e = Readlink path"
  by (auto simp: ReadSymLink_def Let_def split: option.splits if_splits)

lemma Fopen_ReadSymLink [simp]: "Fopen p \<notin> set (snd (ReadSymLink fs path))"
  using set_ReadSymLink [of "Fopen p" fs path] by auto

lemma Lstat_ReadSymLink: "Lstat p \<in> set (snd (ReadSymLink fs path)) \<Longrightarrow> p = path"
  using set_ReadSymLink [of "Lstat p" fs path] by auto

lemma Fopen_fd_loop [simp]: "Fopen p \<notin> set (snd (fd_loop fs pid m parent entries))"
proof (induction entries)
  case Nil
  show ?case by simp
next
  case (Cons d rest)
  then show ?case
    by (simp add: Let_def snd_GetProcessName split: option.splits)
qed

lemma Lstat_fd_loop:
  "Lstat p \<in> set (snd (fd_loop fs pid m parent entries)) \<Longrightarrow> prefix parent p"
proof (induction entries)
  case Nil
  then show ?case by simp
next
  case (Cons d rest)
  then show ?case
    by (auto simp: Let_def snd_GetProcessName split: option.splits if_splits
        dest!: Lstat_ReadSymLink)
qed

lemma Fopen_CheckFileDescriptorSymLinks:
  "Fopen p \<notin> set (snd (CheckFileDescriptorSymLinks fs pid m))"
  by (simp add: CheckFileDescriptorSymLinks_def Let_def split: option.splits)

lemma Lstat_CheckFileDescriptorSymLinks:
  "Lstat p \<in> set (snd (CheckFileDescriptorSymLinks fs pid m)) \<Longrightarrow>
   prefix (''/proc/'' @ fmt_d pid @ ''/fd/'') p"
  by (auto simp: CheckFileDescriptorSymLinks_def Let_def split: option.splits
      dest!: Lstat_fd_loop)

lemma Lstat_maps_loop [simp]: "Lstat p \<notin> set (snd (maps_loop fs pid m lines))"
proof (induction lines)
  case Nil
  show ?case by simp
next
  case (Cons l rest)
  then show ?case
    by (simp add: Let_def snd_GetProcessName split: option.splits)
qed

lemma Lstat_CheckFileMaps: "Lstat p \<notin> set (snd (CheckFileMaps fs pid m))"
  by (simp add: CheckFileMaps_def Let_def split: file_node.splits)

lemma Lstat_CheckSymLink:
  "Lstat p \<in> set (snd (CheckSymLink fs pid m name msg)) \<Longrightarrow>
   p = ''/proc/'' @ fmt_d pid @ ''/'' @ name"
  by (auto simp: CheckSymLink_def Let_def snd_GetProcessName split: option.splits if_splits
      dest!: Lstat_ReadSymLink)

text \<open>
  Claim C2. The holding decision is true exactly when one of the five checks is true:
  open files, memory maps, working directory, root directory, executable, in that
  order. The events of the decision are those of the checks up to the first one that
  is true and of no check after it: once the open files match the maps file is not
  opened, and once a check matches the links of the later checks are not looked at.
\<close>

theorem holds_order_short_circuit:
  "(fst (holds fs pid m) \<longleftrightarrow>
      fst (CheckFileDescriptorSymLinks fs pid m) \<or>
      fst (CheckFileMaps fs pid m) \<or>
      fst (CheckSymLink fs pid m ''cwd'' ''working directory'') \<or>
      fst (CheckSymLink fs pid m ''root'' ''chroot'') \<or>
      fst (CheckSymLink fs pid m ''exe'' ''executable path'')) \<and>
   snd (holds fs pid m) =
     (if fst (CheckFileDescriptorSymLinks fs pid m) then
        snd (CheckFileDescriptorSymLinks fs pid m)
      else if fst (CheckFileMaps fs pid m) then
        snd (CheckFileDescriptorSymLinks fs pid m) @ snd (CheckFileMaps fs pid m)
      else if fst (CheckSymLink fs pid m ''cwd'' ''working directory'') then
        snd (CheckFileDescriptorSymLinks fs pid m) @ snd (CheckFileMaps fs pid m) @
        snd (CheckSymLink fs pid m ''cwd'' ''working directory'')
      else if fst (CheckSymLink fs pid m ''root'' ''chroot'') then
        snd (CheckFileDescriptorSymLinks fs pid m) @ snd (CheckFileMaps fs pid m) @
        snd (CheckSymLink fs pid m ''cwd'' ''working directory'') @
        snd (CheckSymLink fs pid m ''root'' ''chroot'')
      else
        snd (CheckFileDescriptorSymLinks fs pid m) @ snd (CheckFileMaps fs pid m) @
        snd (CheckSymLink fs pid m ''cwd'' ''working directory'') @
        snd (CheckSymLink fs pid m ''root'' ''chroot'') @
        snd (CheckSymLink fs pid m ''exe'' ''executable path'')) \<and>
   (fst (CheckFileDescriptorSymLinks fs pid m) \<longrightarrow>
      (\<forall>p. Fopen p \<notin> set (snd (holds fs pid m))) \<and>
      Lstat (''/proc/'' @ fmt_d pid @ ''/cwd'') \<notin> set (snd (holds fs pid m)) \<and>
      Lstat (''/proc/'' @ fmt_d pid @ ''/root'') \<notin> set (snd (holds fs pid m)) \<and>
      Lstat (''/proc/'' @ fmt_d pid @ ''/exe'') \<notin> set (snd (holds fs pid m))) \<and>
   (fst (CheckFileMaps fs pid m) \<longrightarrow>
      Lstat (''/proc/'' @ fmt_d pid @ ''/cwd'') \<notin> set (snd (holds fs pid m)) \<and>
      Lstat (''/proc/'' @ fmt_d pid @ ''/root'') \<notin> set (snd (holds fs pid m)) \<and>
      Lstat (''/proc/'' @ fmt_d pid @ ''/exe'') \<notin> set (snd (holds fs pid m))) \<and>
   (fst (CheckSymLink fs pid m ''cwd'' ''working directory'') \<longrightarrow>
      Lstat (''/proc/'' @ fmt_d pid @ ''/root'') \<notin> set (snd (holds fs pid m)) \<and>
      Lstat (''/proc/'' @ fmt_d pid @ ''/exe'') \<notin> set (snd (holds fs pid m))) \<and>
   (fst (CheckSymLink fs pid m ''root'' ''chroot'') \<longrightarrow>
      Lstat (''/proc/'' @ fmt_d pid @ ''/exe'') \<notin> set (snd (holds fs pid m)))"
proof -
  let ?A = "CheckFileDescriptorSymLinks fs pid m"
  let ?B = "CheckFileMaps fs pid m"
  let ?C = "CheckSymLink fs pid m ''cwd'' ''working directory''"
  let ?D = "CheckSymLink fs pid m ''root'' ''chroot''"
  let ?E = "CheckSymLink fs pid m ''exe'' ''executable path''"
  have nA: "Lstat (''/proc/'' @ fmt_d pid @ ''/'' @ name) \<notin> set (snd ?A)"
    if "\<not> prefix ''fd/'' name" for name
    using that Lstat_CheckFileDescriptorSymLinks [of "''/proc/'' @ fmt_d pid @ ''/'' @ name" fs pid m]
    by auto
  have nB: "Lstat p \<notin> set (snd ?B)" for p
    by (rule Lstat_CheckFileMaps)
  have nC: "Lstat (''/proc/'' @ fmt_d pid @ ''/'' @ name) \<notin> set (snd ?C)" if "name \<noteq> ''cwd''" for name
    using that Lstat_CheckSymLink [of "''/proc/'' @ fmt_d pid @ ''/'' @ name" fs pid m "''cwd''"]
    by auto
  have nD: "Lstat (''/proc/'' @ fmt_d pid @ ''/'' @ name) \<notin> set (snd ?D)" if "name \<noteq> ''root''" for name
    using that Lstat_CheckSymLink [of "''/proc/'' @ fmt_d pid @ ''/'' @ name" fs pid m "''root''"]
    by auto
  have fA: "Fopen p \<notin> set (snd ?A)" for p
    by (rule Fopen_CheckFileDescriptorSymLinks)
  have v: "fst (holds fs pid m) \<longleftrightarrow> fst ?A \<or> fst ?B \<or> fst ?C \<or> fst ?D \<or> fst ?E"
    by (simp add: holds_def fst_orelse)
  have t: "snd (holds fs pid m) =
     (if fst ?A then snd ?A
      else if fst ?B then snd ?A @ snd ?B
      else if fst ?C then snd ?A @ snd ?B @ snd ?C
      else if fst ?D then snd ?A @ snd ?B @ snd ?C @ snd ?D
      else snd ?A @ snd ?B @ snd ?C @ snd ?D @ snd ?E)"
    by (simp add: holds_def fst_orelse snd_orelse)
  have cA: "fst ?A \<longrightarrow>
      (\<forall>p. Fopen p \<notin> set (snd (holds fs pid m))) \<and>
      Lstat (''/proc/'' @ fmt_d pid @ ''/cwd'') \<notin> set (snd (holds fs pid m)) \<and>
      Lstat (''/proc/'' @ fmt_d pid @ ''/root'') \<notin> set (snd (holds fs pid m)) \<and>
      Lstat (''/proc/'' @ fmt_d pid @ ''/exe'') \<notin> set (snd (holds fs pid m))"
    using fA nA [of "''cwd''"] nA [of "''root''"] nA [of "''exe''"] by (simp add: t)
  have cB: "fst ?B \<longrightarrow>
      Lstat (''/proc/'' @ fmt_d pid @ ''/cwd'') \<notin> set (snd (holds fs pid m)) \<and>
      Lstat (''/proc/'' @ fmt_d pid @ ''/root'') \<notin> set (snd (holds fs pid m)) \<and>
      Lstat (''/proc/'' @ fmt_d pid @ ''/exe'') \<notin> set (snd (holds fs pid m))"
    using nB nA [of "''cwd''"] nA [of "''root''"] nA [of "''exe''"] by (simp add: t)
  have cC: "fst ?C \<longrightarrow>
      Lstat (''/proc/'' @ fmt_d pid @ ''/root'') \<notin> set (snd (holds fs pid m)) \<and>
      Lstat (''/proc/'' @ fmt_d pid @ ''/exe'') \<notin> set (snd (holds fs pid m))"
    using nB nA [of "''root''"] nA [of "''exe''"] nC [of "''root''"] nC [of "''exe''"]
    by (simp add: t)
  have cD: "fst ?D \<longrightarrow>
      Lstat (''/proc/'' @ fmt_d pid @ ''/exe'') \<notin> set (snd (holds fs pid m))"
    using nB nA [of "''exe''"] nC [of "''exe''"] nD [of "''exe''"]
    by (simp add: t)
  from v t cA cB cC cD show ?thesis by blast
qed

theorem holds_order_short_circuit_witness:
  "fst (holds example_fs 42 ''/mnt/vol'') \<and>
   snd (holds example_fs 42 ''/mnt/vol'') =
     snd (CheckFileDescriptorSymLinks example_fs 42 ''/mnt/vol'') \<and>
   Fopen ''/proc/42/maps'' \<notin> set (snd (holds example_fs 42 ''/mnt/vol'')) \<and>
   Lstat ''/proc/42/cwd'' \<notin> set (snd (holds example_fs 42 ''/mnt/vol'')) \<and>
   fst (holds example_fs 9 ''/mnt/vol'') \<and>
   Lstat ''/proc/9/root'' \<notin> set (snd (holds example_fs 9 ''/mnt/vol'')) \<and>
   Lstat ''/proc/9/exe'' \<notin> set (snd (holds example_fs 9 ''/mnt/vol'')) \<and>
   Lstat ''/proc/7/cwd'' \<notin> set (snd (holds example_fs 7 ''/mnt/vol'')) \<and>
   Lstat ''/proc/11/exe'' \<notin> set (snd (holds example_fs 11 ''/mnt/vol''))"
proof -
  note a = holds_order_short_circuit [of example_fs 42 "''/mnt/vol''"]
  note b = holds_order_short_circuit [of example_fs 9 "''/mnt/vol''"]
  note c = holds_order_short_circuit [of example_fs 7 "''/mnt/vol''"]
  note d = holds_order_short_circuit [of example_fs 11 "''/mnt/vol''"]
  have c1: "Lstat ''/proc/7/cwd'' \<notin> set (snd (holds example_fs 7 ''/mnt/vol''))"
    using c [THEN conjunct2, THEN conjunct2, THEN conjunct2, THEN conjunct1]
      example_maps_7 example_fmt_d
    by simp
  have d1: "Lstat ''/proc/11/exe'' \<notin> set (snd (holds example_fs 11 ''/mnt/vol''))"
    using d [THEN conjunct2, THEN conjunct2, THEN conjunct2, THEN conjunct2, THEN conjunct2]
      example_root_11 example_fmt_d
    by simp
  have a1: "fst (holds example_fs 42 ''/mnt/vol'')"
    using a example_open_files_42 by blast
  have a2: "snd (holds example_fs 42 ''/mnt/vol'') =
      snd (CheckFileDescriptorSymLinks example_fs 42 ''/mnt/vol'')"
    using a [THEN conjunct2, THEN conjunct1] example_open_files_42 by simp
  have a3: "Fopen ''/proc/42/maps'' \<notin> set (snd (holds example_fs 42 ''/mnt/vol'')) \<and>
      Lstat ''/proc/42/cwd'' \<notin> set (snd (holds example_fs 42 ''/mnt/vol''))"
    using a [THEN conjunct2, THEN conjunct2, THEN conjunct1] example_open_files_42
      example_fmt_d
    by simp
  have b1: "fst (holds example_fs 9 ''/mnt/vol'')"
    using b example_cwd_9 by blast
  have b2: "Lstat ''/proc/9/root'' \<notin> set (snd (holds example_fs 9 ''/mnt/vol'')) \<and>
      Lstat ''/proc/9/exe'' \<notin> set (snd (holds example_fs 9 ''/mnt/vol''))"
    using b [THEN conjunct2, THEN conjunct2, THEN conjunct2, THEN conjunct2, THEN conjunct1]
      example_cwd_9 example_fmt_d
    by simp
  from a1 a2 a3 b1 b2 c1 d1 show ?thesis by blast
qed

subsection \<open>Signals\<close>

lemma signals_run:
  "signals (KillProcessesWithOpenFiles fs m action) =
     (case sys_opendir fs ''/proc'' of
        None \<Rightarrow> []
      | Some entries \<Rightarrow>
          if action = 1 then map (\<lambda>p. (p, SIGTERM)) (holders fs m entries)
          else if action = 2 then map (\<lambda>p. (p, SIGKILL)) (holders fs m entries)
          else [])"
  by (simp add: KillProcessesWithOpenFiles_def signals_kill_loop split: option.splits)

text \<open>
  Claim C3. With action 0 a run sends no signal. With action 1 it sends \<open>SIGTERM\<close> to
  each process found holding, and with action 2 \<open>SIGKILL\<close>, to those processes only and
  in the order of the enumeration. \<open>SIGHUP\<close>, which the log text of action 1 names, is
  never sent.
\<close>

theorem eviction_signals:
  "signals (KillProcessesWithOpenFiles fs m 0) = [] \<and>
   (sys_opendir fs ''/proc'' = Some entries \<longrightarrow>
      signals (KillProcessesWithOpenFiles fs m 1) =
        map (\<lambda>pid. (pid, SIGTERM)) (holders fs m entries) \<and>
      signals (KillProcessesWithOpenFiles fs m 2) =
        map (\<lambda>pid. (pid, SIGKILL)) (holders fs m entries)) \<and>
   (get_pid d \<noteq> - 1 \<and> fst (holds fs (get_pid d) m) \<longrightarrow>
      signals (kill_entry fs m 0 d) = [] \<and>
      signals (kill_entry fs m 1 d) = [(get_pid d, SIGTERM)] \<and>
      signals (kill_entry fs m 2 d) = [(get_pid d, SIGKILL)]) \<and>
   (pid, SIGHUP) \<notin> set (signals (KillProcessesWithOpenFiles fs m action)) \<and>
   SIGTERM \<noteq> SIGHUP"
  by (auto simp: signals_run signals_kill_entry split: option.splits)

theorem eviction_signals_witness:
  "signals (KillProcessesWithOpenFiles example_fs ''/mnt/vol'' 0) = [] \<and>
   signals (KillProcessesWithOpenFiles example_fs ''/mnt/vol'' 1) =
     [(42, SIGTERM), (7, SIGTERM), (9, SIGTERM), (11, SIGTERM), (12, SIGTERM)] \<and>
   signals (KillProcessesWithOpenFiles example_fs ''/mnt/vol'' 2) =
     [(42, SIGKILL), (7, SIGKILL), (9, SIGKILL), (11, SIGKILL), (12, SIGKILL)] \<and>
   signals (kill_entry example_fs ''/mnt/vol'' 1 ''42'') = [(42, SIGTERM)] \<and>
   signals (kill_entry example_fs ''/mnt/vol'' 2 ''42'') = [(42, SIGKILL)]"
  using eviction_signals [of example_fs "''/mnt/vol''"
      "[''.'', ''..'', ''1'', ''42'', ''self'', ''7'', ''9'', ''11'', ''12'', ''uptime'']" "''42''"]
    example_proc_entries example_holders example_get_pid example_holds_42
  by simp

text \<open>
  Claim C10. With an action other than 1 and 2, so with 0 and with any value out of
  range, a run sends no signal even when processes are found holding: each entry
  leaves the events of its checks and nothing else, and the run is the run of
  action 0.
\<close>

theorem other_actions_send_nothing:
  "action \<noteq> 1 \<and> action \<noteq> 2 \<longrightarrow>
     signals (KillProcessesWithOpenFiles fs m action) = [] \<and>
     kill_entry fs m action d = (if get_pid d = - 1 then [] else snd (holds fs (get_pid d) m)) \<and>
     KillProcessesWithOpenFiles fs m action = KillProcessesWithOpenFiles fs m 0"
proof
  assume a: "action \<noteq> 1 \<and> action \<noteq> 2"
  have e: "kill_entry fs m action x = kill_entry fs m 0 x" for x
    using a by (simp add: kill_entry_def Let_def)
  have l: "kill_loop fs m action xs = kill_loop fs m 0 xs" for xs
    by (induction xs) (simp_all add: e)
  have s: "signals (KillProcessesWithOpenFiles fs m action) = []"
    using a by (simp add: signals_run split: option.splits)
  have k: "kill_entry fs m action d =
      (if get_pid d = - 1 then [] else snd (holds fs (get_pid d) m))"
    using a by (simp add: kill_entry_def Let_def)
  have r: "KillProcessesWithOpenFiles fs m action = KillProcessesWithOpenFiles fs m 0"
    by (simp add: KillProcessesWithOpenFiles_def l split: option.splits)
  from s k r show "signals (KillProcessesWithOpenFiles fs m action) = [] \<and>
     kill_entry fs m action d = (if get_pid d = - 1 then [] else snd (holds fs (get_pid d) m)) \<and>
     KillProcessesWithOpenFiles fs m action = KillProcessesWithOpenFiles fs m 0"
    by blast
qed

theorem other_actions_send_nothing_witness:
  "signals (KillProcessesWithOpenFiles example_fs ''/mnt/vol'' 3) = [] \<and>
   signals (KillProcessesWithOpenFiles example_fs ''/mnt/vol'' (- 1)) = [] \<and>
   signals (KillProcessesWithOpenFiles example_fs ''/mnt/vol'' 0) = [] \<and>
   kill_entry example_fs ''/mnt/vol'' 3 ''42'' = snd (holds example_fs 42 ''/mnt/vol'') \<and>
   fst (holds example_fs 42 ''/mnt/vol'')"
  using other_actions_send_nothing [of 3 example_fs "''/mnt/vol''" "''42''"]
    other_actions_send_nothing [of "- 1" example_fs "''/mnt/vol''" "''42''"]
    other_actions_send_nothing [of 0 example_fs "''/mnt/vol''" "''42''"]
    example_get_pid example_holds_42
  by simp

subsection \<open>Reading a link\<close>

text \<open>
  Claim C6. \<open>ReadSymLink\<close> gives a target exactly when \<open>lstat\<close> succeeds, the mode is
  that of a symbolic link, and \<open>readlink\<close> succeeds with a positive length; the target
  is then what \<open>readlink\<close> stored, the first \<open>PATH_MAX - 1\<close> bytes of the link. A missing
  entry, an entry of another kind, a failing or empty \<open>readlink\<close> give none. A target
  returned is shorter than \<open>PATH_MAX\<close>, so the terminating NUL has its place in the
  buffer.
\<close>

theorem ReadSymLink_result:
  "(fst (ReadSymLink fs path) = Some link \<longleftrightarrow>
     (\<exists>st_mode target. sys_lstat fs path = Some st_mode \<and> st_mode AND S_IFMT = S_IFLNK \<and>
        sys_readlink fs path = Some target \<and> 0 < length target \<and>
        link = take (PATH_MAX - 1) target)) \<and>
   (sys_lstat fs path = None \<longrightarrow> fst (ReadSymLink fs path) = None) \<and>
   (\<forall>st_mode. sys_lstat fs path = Some st_mode \<and> st_mode AND S_IFMT \<noteq> S_IFLNK
      \<longrightarrow> fst (ReadSymLink fs path) = None) \<and>
   (sys_readlink fs path = None \<longrightarrow> fst (ReadSymLink fs path) = None) \<and>
   (sys_readlink fs path = Some [] \<longrightarrow> fst (ReadSymLink fs path) = None) \<and>
   (fst (ReadSymLink fs path) = Some link \<longrightarrow> 0 < length link \<and> length link < PATH_MAX)"
  by (auto simp: ReadSymLink_def Let_def PATH_MAX_def split: option.splits)

theorem ReadSymLink_result_witness:
  "fst (ReadSymLink link_fs ''/proc/42/cwd'') = Some ''/mnt/vol/sub'' \<and>
   fst (ReadSymLink link_fs ''/proc/42/exe'') = None \<and>
   fst (ReadSymLink link_fs ''/proc/42/fd'') = None \<and>
   fst (ReadSymLink link_fs ''/proc/42/maps'') = None \<and>
   fst (ReadSymLink link_fs ''/proc/42/gone'') = None \<and>
   fst (ReadSymLink link_fs ''/proc/42/blank'') = None \<and>
   fst (ReadSymLink link_fs ''/proc/42/long'') = Some (replicate 4095 CHR ''a'')"
  using ReadSymLink_result [of link_fs "''/proc/42/cwd''" "''/mnt/vol/sub''"]
        ReadSymLink_result [of link_fs "''/proc/42/exe''"]
        ReadSymLink_result [of link_fs "''/proc/42/fd''"]
        ReadSymLink_result [of link_fs "''/proc/42/maps''"]
        ReadSymLink_result [of link_fs "''/proc/42/gone''"]
        ReadSymLink_result [of link_fs "''/proc/42/blank''"]
        ReadSymLink_result [of link_fs "''/proc/42/long''" "replicate 4095 CHR ''a''"]
  by (simp add: link_fs_def S_IFMT_def S_IFLNK_def PATH_MAX_def)

subsection \<open>Names of processes\<close>

lemma get_pid_loop_nondigit:
  "\<exists>c\<in>set s. \<not> isdigit c \<Longrightarrow> get_pid_loop r s = - 1"
  by (induction s arbitrary: r) auto

lemma get_pid_loop_digits:
  "\<forall>c\<in>set s. isdigit c \<Longrightarrow>
   get_pid_loop (word_of_nat a) s =
     sint (word_of_nat (foldl (\<lambda>a c. 10 * a + (of_char c - 48)) a s) :: 32 word)"
proof (induction s arbitrary: a)
  case Nil
  show ?case by simp
next
  case (Cons c s)
  then have d: "48 \<le> (of_char c :: nat)" and c: "isdigit c"
    by (simp_all add: isdigit_def)
  have step: "10 * (word_of_nat a :: 32 word) + (word_of_nat (of_char c) - 48) =
        word_of_nat (10 * a + (of_char c - 48))"
    using d by (simp add: of_nat_diff)
  have "get_pid_loop (word_of_nat a) (c # s) =
        get_pid_loop (10 * (word_of_nat a :: 32 word) + (word_of_nat (of_char c) - 48)) s"
    using c by simp
  also have "\<dots> = get_pid_loop (word_of_nat (10 * a + (of_char c - 48))) s"
    by (simp only: step)
  also have "\<dots> = sint (word_of_nat
      (foldl (\<lambda>a c. 10 * a + (of_char c - 48)) (10 * a + (of_char c - 48)) s) :: 32 word)"
    using Cons.prems by (intro Cons.IH) simp
  finally show ?case by simp
qed

lemma sint_small: "v < 2 ^ 31 \<Longrightarrow> sint (word_of_nat v :: 32 word) = int v"
proof -
  assume v: "v < 2 ^ 31"
  have "sint (word_of_nat v :: 32 word) = signed_take_bit 31 (int v)"
    by (simp add: signed_of_nat)
  also have "\<dots> = int v"
  proof (rule signed_take_bit_int_eq_self)
    show "- (2 ^ 31) \<le> int v" by simp
    from v have "int v < int (2 ^ 31)" by (simp only: of_nat_less_iff)
    then show "int v < 2 ^ 31" by simp
  qed
  finally show ?thesis .
qed

lemma get_pid_digits:
  assumes "\<forall>c\<in>set s. isdigit c" and "decimal s < 2 ^ 31"
  shows "get_pid s = int (decimal s)"
proof -
  have "get_pid s = get_pid_loop (word_of_nat 0) s"
    by (simp add: get_pid_def)
  also have "\<dots> = sint (word_of_nat (decimal s) :: 32 word)"
    using assms(1) unfolding decimal_def by (rule get_pid_loop_digits)
  also have "\<dots> = int (decimal s)"
    using assms(2) by (rule sint_small)
  finally show ?thesis .
qed

lemma get_pid_nondigit: "\<exists>c\<in>set s. \<not> isdigit c \<Longrightarrow> get_pid s = - 1"
  by (simp add: get_pid_def get_pid_loop_nondigit)

lemma holds_events_nonempty: "snd (holds fs pid m) \<noteq> []"
  by (simp add: holds_def snd_orelse CheckFileDescriptorSymLinks_def Let_def split: option.splits)

lemma holds_prefix_kill_entry:
  "get_pid d \<noteq> - 1 \<Longrightarrow> prefix (snd (holds fs (get_pid d) m)) (kill_entry fs m action d)"
  by (simp add: kill_entry_def Let_def)

text \<open>
  Claim C4, as amended. An entry of \<open>/proc\<close> whose name has a byte that is not a decimal
  digit gets \<open>-1\<close> from \<open>get_pid\<close> and is skipped: it leaves no event. An entry whose
  name is a non-empty string of decimal digits with a value below \<open>2^31\<close> gets that
  value, which is not negative, and is passed to the checks: the events of its turn
  begin with those of the holding decision for that pid.
\<close>

theorem get_pid_decimal_names:
  "((\<exists>c\<in>set name. \<not> isdigit c) \<longrightarrow>
      get_pid name = - 1 \<and> kill_entry fs m action name = []) \<and>
   (name \<noteq> [] \<and> (\<forall>c\<in>set name. isdigit c) \<and> decimal name < 2 ^ 31 \<longrightarrow>
      get_pid name = int (decimal name) \<and> 0 \<le> get_pid name \<and>
      kill_entry fs m action name \<noteq> [] \<and>
      prefix (snd (holds fs (int (decimal name)) m)) (kill_entry fs m action name))"
proof (intro conjI impI)
  assume n: "\<exists>c\<in>set name. \<not> isdigit c"
  then show "get_pid name = - 1" by (rule get_pid_nondigit)
  then show "kill_entry fs m action name = []" by (simp add: kill_entry_def)
next
  assume d: "name \<noteq> [] \<and> (\<forall>c\<in>set name. isdigit c) \<and> decimal name < 2 ^ 31"
  then show g: "get_pid name = int (decimal name)" by (simp add: get_pid_digits)
  then show "0 \<le> get_pid name" by simp
  from g have p: "get_pid name \<noteq> - 1" by simp
  then have q: "prefix (snd (holds fs (get_pid name) m)) (kill_entry fs m action name)"
    by (rule holds_prefix_kill_entry)
  then show "prefix (snd (holds fs (int (decimal name)) m)) (kill_entry fs m action name)"
    by (simp add: g)
  from q holds_events_nonempty [of fs "get_pid name" m]
  show "kill_entry fs m action name \<noteq> []" by auto
qed

text \<open>
  Claim C4 as the specification has it fails for the empty name: the loop of
  \<open>get_pid\<close> does not run and the result is 0, not \<open>-1\<close>, so the entry is taken for
  process 0 and the checks run. It also fails where the digits do not fit the \<open>int\<close>:
  with the accumulator wrapping around, the ten digits of \<open>2^32 - 1\<close> give \<open>-1\<close> and
  the entry is skipped.
\<close>

theorem get_pid_empty_name:
  "get_pid [] = 0 \<and> get_pid [] \<noteq> - 1 \<and> kill_entry example_fs ''/mnt/vol'' 0 [] \<noteq> [] \<and>
   get_pid ''4294967295'' = - 1"
proof -
  have w: "get_pid ''4294967295'' = - 1" by (simp add: get_pid_def isdigit_def)
  have g: "get_pid [] = 0" by (simp add: get_pid_def)
  then have "get_pid [] \<noteq> - 1" by simp
  then have "prefix (snd (holds example_fs (get_pid []) ''/mnt/vol''))
      (kill_entry example_fs ''/mnt/vol'' 0 [])"
    by (rule holds_prefix_kill_entry)
  with holds_events_nonempty [of example_fs "get_pid []" "''/mnt/vol''"]
  have "kill_entry example_fs ''/mnt/vol'' 0 [] \<noteq> []" by auto
  with g w show ?thesis by simp
qed

theorem get_pid_decimal_names_witness:
  "get_pid ''self'' = - 1 \<and> kill_entry example_fs ''/mnt/vol'' 2 ''self'' = [] \<and>
   get_pid ''4x'' = - 1 \<and>
   get_pid ''42'' = 42 \<and> kill_entry example_fs ''/mnt/vol'' 2 ''42'' \<noteq> [] \<and>
   prefix (snd (holds example_fs 42 ''/mnt/vol'')) (kill_entry example_fs ''/mnt/vol'' 2 ''42'')"
proof -
  have d: "decimal ''42'' = 42" by (simp add: decimal_def)
  have n: "\<exists>c\<in>set ''self''. \<not> isdigit c" "\<exists>c\<in>set ''4x''. \<not> isdigit c"
    by (simp_all add: isdigit_def)
  have a: "\<forall>c\<in>set ''42''. isdigit c" by (simp add: isdigit_def)
  show ?thesis
    using get_pid_decimal_names [of "''self''" example_fs "''/mnt/vol''" 2]
      get_pid_decimal_names [of "''4x''" example_fs "''/mnt/vol''" 2]
      get_pid_decimal_names [of "''42''" example_fs "''/mnt/vol''" 2]
      n a d
    by simp
qed

subsection \<open>The command line\<close>

lemma maps_not_cmdline: "''/proc/'' @ fmt_d pid @ ''/maps'' \<noteq> cmdline_path q"
proof
  assume "''/proc/'' @ fmt_d pid @ ''/maps'' = cmdline_path q"
  then have "last (''/proc/'' @ fmt_d pid @ ''/maps'') = last (cmdline_path q)" by simp
  then show False by (simp add: cmdline_path_def)
qed

lemma ReadSymLink_same:
  "same_but_cmdline fs fs' \<Longrightarrow> ReadSymLink fs' path = ReadSymLink fs path"
  by (auto simp: same_but_cmdline_def ReadSymLink_def split: option.splits)

lemma fd_loop_same:
  "same_but_cmdline fs fs' \<Longrightarrow>
   fst (fd_loop fs' pid m parent entries) = fst (fd_loop fs pid m parent entries)"
proof (induction entries)
  case Nil
  show ?case by simp
next
  case (Cons d rest)
  then show ?case
    by (simp add: Let_def ReadSymLink_same split: option.splits)
qed

lemma CheckFileDescriptorSymLinks_same:
  "same_but_cmdline fs fs' \<Longrightarrow>
   fst (CheckFileDescriptorSymLinks fs' pid m) = fst (CheckFileDescriptorSymLinks fs pid m)"
  using fd_loop_same [of fs fs']
  by (simp add: CheckFileDescriptorSymLinks_def Let_def same_but_cmdline_def split: option.splits)

lemma maps_loop_same:
  "fst (maps_loop fs' pid m lines) = fst (maps_loop fs pid m lines)"
proof (induction lines)
  case Nil
  show ?case by simp
next
  case (Cons l rest)
  then show ?case
    by (simp add: Let_def split: option.splits)
qed

lemma CheckFileMaps_same:
  assumes "same_but_cmdline fs fs'"
  shows "fst (CheckFileMaps fs' pid m) = fst (CheckFileMaps fs pid m)"
proof -
  from assms maps_not_cmdline [of pid]
  have "sys_open fs' (''/proc/'' @ fmt_d pid @ ''/maps'') =
        sys_open fs (''/proc/'' @ fmt_d pid @ ''/maps'')"
    unfolding same_but_cmdline_def by blast
  then show ?thesis
    using maps_loop_same [of fs' pid m _ fs]
    by (simp add: CheckFileMaps_def Let_def split: file_node.splits)
qed

lemma CheckSymLink_same:
  "same_but_cmdline fs fs' \<Longrightarrow>
   fst (CheckSymLink fs' pid m name msg) = fst (CheckSymLink fs pid m name msg)"
  by (simp add: CheckSymLink_def Let_def ReadSymLink_same split: option.splits)

lemma holds_same:
  "same_but_cmdline fs fs' \<Longrightarrow> fst (holds fs' pid m) = fst (holds fs pid m)"
  by (simp add: holds_def fst_orelse CheckFileDescriptorSymLinks_same CheckFileMaps_same
      CheckSymLink_same)

lemma holders_same:
  "same_but_cmdline fs fs' \<Longrightarrow> holders fs' m entries = holders fs m entries"
  by (induction entries) (simp_all add: holders_def holds_same)

lemma is_Open_ReadSymLink [simp]: "e \<in> set (snd (ReadSymLink fs path)) \<Longrightarrow> \<not> is_Open e"
  by (auto simp: ReadSymLink_def Let_def split: option.splits if_splits)

lemma no_Open_fd_loop:
  "\<not> fst (fd_loop fs pid m parent entries) \<Longrightarrow>
   \<forall>e\<in>set (snd (fd_loop fs pid m parent entries)). \<not> is_Open e"
proof (induction entries)
  case Nil
  show ?case by simp
next
  case (Cons d rest)
  then show ?case
    by (auto simp: Let_def split: option.splits if_splits)
qed

lemma no_Open_CheckFileDescriptorSymLinks:
  "\<not> fst (CheckFileDescriptorSymLinks fs pid m) \<Longrightarrow>
   \<forall>e\<in>set (snd (CheckFileDescriptorSymLinks fs pid m)). \<not> is_Open e"
  using no_Open_fd_loop [of fs pid m]
  by (auto simp: CheckFileDescriptorSymLinks_def Let_def split: option.splits)

lemma no_Open_maps_loop:
  "\<not> fst (maps_loop fs pid m lines) \<Longrightarrow> snd (maps_loop fs pid m lines) = []"
proof (induction lines)
  case Nil
  show ?case by simp
next
  case (Cons l rest)
  then show ?case
    by (auto simp: Let_def split: option.splits if_splits)
qed

lemma no_Open_CheckFileMaps:
  "\<not> fst (CheckFileMaps fs pid m) \<Longrightarrow>
   \<forall>e\<in>set (snd (CheckFileMaps fs pid m)). \<not> is_Open e"
  using no_Open_maps_loop [of fs pid m]
  by (auto simp: CheckFileMaps_def Let_def split: file_node.splits)

lemma no_Open_CheckSymLink:
  "\<not> fst (CheckSymLink fs pid m name msg) \<Longrightarrow>
   \<forall>e\<in>set (snd (CheckSymLink fs pid m name msg)). \<not> is_Open e"
  by (auto simp: CheckSymLink_def Let_def split: option.splits if_splits)

lemma no_Open_holds:
  "\<not> fst (holds fs pid m) \<Longrightarrow> \<forall>e\<in>set (snd (holds fs pid m)). \<not> is_Open e"
  using no_Open_CheckFileDescriptorSymLinks [of fs pid m] no_Open_CheckFileMaps [of fs pid m]
    no_Open_CheckSymLink [of fs pid m]
  by (auto simp: holds_def fst_orelse snd_orelse)

lemma name_lookup_lastI:
  "tr = t @ [Open (cmdline_path pid), l] \<Longrightarrow> \<forall>e\<in>set t. \<not> is_Open e \<Longrightarrow> is_log l \<Longrightarrow>
   name_lookup_last pid tr"
  by (simp add: name_lookup_last_def list_all_iff)

lemma name_lookup_last_append:
  "name_lookup_last pid tr \<Longrightarrow> \<forall>e\<in>set t. \<not> is_Open e \<Longrightarrow> name_lookup_last pid (t @ tr)"
  by (auto simp: name_lookup_last_def list_all_iff split: list.splits event.splits)

lemma name_lookup_last_Cons:
  "name_lookup_last pid tr \<Longrightarrow> \<not> is_Open e \<Longrightarrow> name_lookup_last pid (e # tr)"
  using name_lookup_last_append [of pid tr "[e]"] by simp

lemma snd_GetProcessName': "snd (GetProcessName fs pid) = [Open (cmdline_path pid)]"
  by (simp add: GetProcessName_def cmdline_path_def Let_def split: file_node.splits)

lemma lookup_fd_loop:
  "fst (fd_loop fs pid m parent entries) \<Longrightarrow>
   name_lookup_last pid (snd (fd_loop fs pid m parent entries))"
proof (induction entries)
  case Nil
  then show ?case by simp
next
  case (Cons d rest)
  show ?case
  proof (cases "d = ''.'' \<or> d = ''..''")
    case True
    with Cons show ?thesis by auto
  next
    case False
    let ?r = "ReadSymLink fs (parent @ d)"
    have nr: "\<forall>e\<in>set (snd ?r). \<not> is_Open e" by simp
    show ?thesis
    proof (cases "\<exists>link. fst ?r = Some link \<and> PathMatchesMountPoint link m")
      case True
      then obtain link where l: "fst ?r = Some link" "PathMatchesMountPoint link m" by blast
      have "snd (fd_loop fs pid m parent (d # rest)) =
          snd ?r @ [Open (cmdline_path pid),
            LOGE ''Process %s (%d) has open file %s''
              [ArgName (fst (GetProcessName fs pid)), ArgD pid, ArgS link]]"
        using False l by (simp add: Let_def snd_GetProcessName')
      then show ?thesis using nr by (rule name_lookup_lastI) simp
    next
      case no: False
      then have e: "fd_loop fs pid m parent (d # rest) =
          after (snd ?r) (fd_loop fs pid m parent rest)"
        using False by (auto simp: Let_def split: option.splits)
      with Cons.prems have "fst (fd_loop fs pid m parent rest)" by simp
      then have "name_lookup_last pid (snd (fd_loop fs pid m parent rest))"
        by (rule Cons.IH)
      then have "name_lookup_last pid (snd ?r @ snd (fd_loop fs pid m parent rest))"
        using nr by (rule name_lookup_last_append)
      then show ?thesis by (simp only: e snd_after)
    qed
  qed
qed

lemma lookup_CheckFileDescriptorSymLinks:
  "fst (CheckFileDescriptorSymLinks fs pid m) \<Longrightarrow>
   name_lookup_last pid (snd (CheckFileDescriptorSymLinks fs pid m))"
  using lookup_fd_loop [of fs pid m]
  by (auto simp: CheckFileDescriptorSymLinks_def Let_def name_lookup_last_Cons
      split: option.splits)

lemma lookup_maps_loop:
  "fst (maps_loop fs pid m lines) \<Longrightarrow> name_lookup_last pid (snd (maps_loop fs pid m lines))"
proof (induction lines)
  case Nil
  then show ?case by simp
next
  case (Cons l rest)
  then show ?case
    by (auto simp: Let_def snd_GetProcessName' name_lookup_last_def
        split: option.splits if_splits)
qed

lemma lookup_CheckFileMaps:
  "fst (CheckFileMaps fs pid m) \<Longrightarrow> name_lookup_last pid (snd (CheckFileMaps fs pid m))"
  using lookup_maps_loop [of fs pid m]
  by (auto simp: CheckFileMaps_def Let_def name_lookup_last_Cons split: file_node.splits)

lemma lookup_CheckSymLink:
  assumes "fst (CheckSymLink fs pid m name msg)"
  shows "name_lookup_last pid (snd (CheckSymLink fs pid m name msg))"
proof -
  let ?r = "ReadSymLink fs (''/proc/'' @ fmt_d pid @ ''/'' @ name)"
  have nr: "\<forall>e\<in>set (snd ?r). \<not> is_Open e" by simp
  from assms obtain link where l: "fst ?r = Some link" "PathMatchesMountPoint link m"
    by (auto simp: CheckSymLink_def Let_def split: option.splits if_splits)
  then have "snd (CheckSymLink fs pid m name msg) =
      snd ?r @ [Open (cmdline_path pid),
        LOGW ''Process %s (%d) has %s in %s''
          [ArgName (fst (GetProcessName fs pid)), ArgD pid, ArgS msg, ArgS m]]"
    by (simp add: CheckSymLink_def Let_def snd_GetProcessName')
  then show ?thesis using nr by (rule name_lookup_lastI) simp
qed

lemma signals_run_same:
  assumes "same_but_cmdline fs fs'"
  shows "signals (KillProcessesWithOpenFiles fs' m action) =
         signals (KillProcessesWithOpenFiles fs m action)"
proof -
  from assms have "sys_opendir fs' ''/proc'' = sys_opendir fs ''/proc''"
    by (simp add: same_but_cmdline_def)
  with holders_same [OF assms] show ?thesis
    by (simp add: KillProcessesWithOpenFiles_def signals_kill_loop split: option.splits)
qed

text \<open>
  Claim C9. The holding decision does not depend on the command line. In two states
  that are the same but for the command lines, including one where the command line
  cannot be opened or read, every check and the decision give the same answer, and a
  run sends the same signals. A check that does not match never opens the command
  line; a check that matches opens it as its last call, after the calls that decided
  the match, and only the log record follows.
\<close>

theorem decision_ignores_cmdline:
  "(same_but_cmdline fs fs' \<longrightarrow>
      fst (CheckFileDescriptorSymLinks fs' pid m) = fst (CheckFileDescriptorSymLinks fs pid m) \<and>
      fst (CheckFileMaps fs' pid m) = fst (CheckFileMaps fs pid m) \<and>
      fst (CheckSymLink fs' pid m name msg) = fst (CheckSymLink fs pid m name msg) \<and>
      fst (holds fs' pid m) = fst (holds fs pid m) \<and>
      signals (KillProcessesWithOpenFiles fs' m action) =
        signals (KillProcessesWithOpenFiles fs m action)) \<and>
   (\<not> fst (CheckFileDescriptorSymLinks fs pid m) \<longrightarrow>
      list_all (\<lambda>e. \<not> is_Open e) (snd (CheckFileDescriptorSymLinks fs pid m))) \<and>
   (\<not> fst (CheckFileMaps fs pid m) \<longrightarrow>
      list_all (\<lambda>e. \<not> is_Open e) (snd (CheckFileMaps fs pid m))) \<and>
   (\<not> fst (CheckSymLink fs pid m name msg) \<longrightarrow>
      list_all (\<lambda>e. \<not> is_Open e) (snd (CheckSymLink fs pid m name msg))) \<and>
   (\<not> fst (holds fs pid m) \<longrightarrow> list_all (\<lambda>e. \<not> is_Open e) (snd (holds fs pid m))) \<and>
   (fst (CheckFileDescriptorSymLinks fs pid m) \<longrightarrow>
      name_lookup_last pid (snd (CheckFileDescriptorSymLinks fs pid m))) \<and>
   (fst (CheckFileMaps fs pid m) \<longrightarrow> name_lookup_last pid (snd (CheckFileMaps fs pid m))) \<and>
   (fst (CheckSymLink fs pid m name msg) \<longrightarrow>
      name_lookup_last pid (snd (CheckSymLink fs pid m name msg)))"
  using no_Open_CheckFileDescriptorSymLinks [of fs pid m] no_Open_CheckFileMaps [of fs pid m]
    no_Open_CheckSymLink [of fs pid m name msg] no_Open_holds [of fs pid m]
    lookup_CheckFileDescriptorSymLinks [of fs pid m] lookup_CheckFileMaps [of fs pid m]
    lookup_CheckSymLink [of fs pid m name msg]
    CheckFileDescriptorSymLinks_same [of fs fs' pid m] CheckFileMaps_same [of fs fs' pid m]
    CheckSymLink_same [of fs fs' pid m name msg] holds_same [of fs fs' pid m]
    signals_run_same [of fs fs' m action]
  by (simp add: list_all_iff)

lemma renamed_same: "same_but_cmdline example_fs renamed_fs"
proof -
  have c: "cmdline_path 42 = ''/proc/42/cmdline''" "cmdline_path 9 = ''/proc/9/cmdline''"
    "cmdline_path 7 = ''/proc/7/cmdline''"
    by (simp_all add: cmdline_path_def example_fmt_d)
  have "sys_open renamed_fs p = sys_open example_fs p" if "\<forall>q. p \<noteq> cmdline_path q" for p
  proof -
    from that [rule_format, of 42] that [rule_format, of 9] that [rule_format, of 7]
    have "p \<noteq> ''/proc/42/cmdline''" "p \<noteq> ''/proc/9/cmdline''" "p \<noteq> ''/proc/7/cmdline''"
      by (simp_all add: c)
    then show ?thesis by (simp add: renamed_fs_def)
  qed
  then show ?thesis
    by (simp add: same_but_cmdline_def renamed_fs_def)
qed

lemma example_names:
  "fst (GetProcessName example_fs 42) = Some ''app''"
  "fst (GetProcessName renamed_fs 42) = None"
  "fst (GetProcessName example_fs 9) = Some ''sh''"
  "fst (GetProcessName renamed_fs 9) = Some ''/mnt/vol/bin/tool''"
  by code_simp+

theorem decision_ignores_cmdline_witness:
  "fst (GetProcessName renamed_fs 42) \<noteq> fst (GetProcessName example_fs 42) \<and>
   fst (GetProcessName renamed_fs 9) \<noteq> fst (GetProcessName example_fs 9) \<and>
   fst (CheckFileDescriptorSymLinks renamed_fs 42 ''/mnt/vol'') \<and>
   fst (CheckFileMaps renamed_fs 7 ''/mnt/vol'') \<and>
   fst (CheckSymLink renamed_fs 9 ''/mnt/vol'' ''cwd'' ''working directory'') \<and>
   fst (holds renamed_fs 42 ''/mnt/vol'') \<and>
   \<not> fst (holds renamed_fs 1 ''/mnt/vol'') \<and>
   signals (KillProcessesWithOpenFiles renamed_fs ''/mnt/vol'' 2) =
     [(42, SIGKILL), (7, SIGKILL), (9, SIGKILL), (11, SIGKILL), (12, SIGKILL)] \<and>
   name_lookup_last 42 (snd (CheckFileDescriptorSymLinks example_fs 42 ''/mnt/vol'')) \<and>
   name_lookup_last 7 (snd (CheckFileMaps example_fs 7 ''/mnt/vol'')) \<and>
   name_lookup_last 9 (snd (CheckSymLink example_fs 9 ''/mnt/vol'' ''cwd'' ''working directory'')) \<and>
   list_all (\<lambda>e. \<not> is_Open e) (snd (CheckFileDescriptorSymLinks example_fs 9 ''/mnt/vol'')) \<and>
   list_all (\<lambda>e. \<not> is_Open e) (snd (CheckFileMaps example_fs 42 ''/mnt/vol'')) \<and>
   list_all (\<lambda>e. \<not> is_Open e)
     (snd (CheckSymLink example_fs 42 ''/mnt/vol'' ''cwd'' ''working directory'')) \<and>
   list_all (\<lambda>e. \<not> is_Open e) (snd (holds example_fs 1 ''/mnt/vol''))"
proof -
  have s: "signals (KillProcessesWithOpenFiles example_fs ''/mnt/vol'' 2) =
      [(42, SIGKILL), (7, SIGKILL), (9, SIGKILL), (11, SIGKILL), (12, SIGKILL)]"
    by (simp add: signals_run example_proc_entries example_holders)
  show ?thesis
    using decision_ignores_cmdline [of example_fs renamed_fs 42 "''/mnt/vol''" "''cwd''"
        "''working directory''" 2]
      decision_ignores_cmdline [of example_fs renamed_fs 9 "''/mnt/vol''" "''cwd''"
        "''working directory''" 2]
      decision_ignores_cmdline [of example_fs renamed_fs 7 "''/mnt/vol''" "''cwd''"
        "''working directory''" 2]
      decision_ignores_cmdline [of example_fs renamed_fs 1 "''/mnt/vol''" "''cwd''"
        "''working directory''" 2]
      renamed_same example_names example_open_files_42 example_open_files_9
      example_maps_7 example_cwd_9 example_not_42 example_holds_42 example_holds_1 s
    by simp
qed

subsection \<open>Failures\<close>

lemma fd_loop_skip:
  "fst (ReadSymLink fs (parent @ d)) = None \<Longrightarrow>
   fst (fd_loop fs pid m parent (d # rest)) = fst (fd_loop fs pid m parent rest)"
  by (simp add: Let_def)

lemma ReadSymLink_fails:
  "sys_lstat fs path = None \<or> sys_readlink fs path = None \<Longrightarrow> fst (ReadSymLink fs path) = None"
  by (auto simp: ReadSymLink_def Let_def split: option.splits)

lemma kill_loop_concat:
  "kill_loop fs m action entries = concat (map (kill_entry fs m action) entries)"
  by (induction entries) simp_all

text \<open>
  Claim C7. A failure on a path of one process makes the check it belongs to answer
  that the process does not hold: a descriptor directory that cannot be opened, a maps
  file that cannot be opened or read, a link that is missing or cannot be read. In the
  loop over the descriptors a link that fails is passed over and the loop goes on with
  the entries after it. A run ends early only when \<open>/proc\<close> cannot be opened: it then
  consists of that call alone. Otherwise every entry of \<open>/proc\<close> has its turn, in
  order, whatever failed before it.
\<close>

theorem failures_are_absorbed:
  "(sys_opendir fs (''/proc/'' @ fmt_d pid @ ''/fd'') = None \<longrightarrow>
      \<not> fst (CheckFileDescriptorSymLinks fs pid m)) \<and>
   (sys_open fs (''/proc/'' @ fmt_d pid @ ''/maps'') = CannotOpen \<or>
    sys_open fs (''/proc/'' @ fmt_d pid @ ''/maps'') = ReadFails \<longrightarrow>
      \<not> fst (CheckFileMaps fs pid m)) \<and>
   (sys_lstat fs (''/proc/'' @ fmt_d pid @ ''/'' @ name) = None \<or>
    sys_readlink fs (''/proc/'' @ fmt_d pid @ ''/'' @ name) = None \<longrightarrow>
      \<not> fst (CheckSymLink fs pid m name msg)) \<and>
   (sys_lstat fs (parent @ d) = None \<or> sys_readlink fs (parent @ d) = None \<longrightarrow>
      fst (fd_loop fs pid m parent (d # rest)) = fst (fd_loop fs pid m parent rest)) \<and>
   (sys_opendir fs ''/proc'' = None \<longrightarrow>
      KillProcessesWithOpenFiles fs m action = [Opendir ''/proc'']) \<and>
   (sys_opendir fs ''/proc'' = Some entries \<longrightarrow>
      KillProcessesWithOpenFiles fs m action =
        Opendir ''/proc'' # concat (map (kill_entry fs m action) entries))"
proof (intro conjI impI)
  assume "sys_opendir fs (''/proc/'' @ fmt_d pid @ ''/fd'') = None"
  then show "\<not> fst (CheckFileDescriptorSymLinks fs pid m)"
    by (simp add: CheckFileDescriptorSymLinks_def)
next
  assume "sys_open fs (''/proc/'' @ fmt_d pid @ ''/maps'') = CannotOpen \<or>
    sys_open fs (''/proc/'' @ fmt_d pid @ ''/maps'') = ReadFails"
  then show "\<not> fst (CheckFileMaps fs pid m)"
    by (auto simp: CheckFileMaps_def)
next
  assume "sys_lstat fs (''/proc/'' @ fmt_d pid @ ''/'' @ name) = None \<or>
    sys_readlink fs (''/proc/'' @ fmt_d pid @ ''/'' @ name) = None"
  then have "fst (ReadSymLink fs (''/proc/'' @ fmt_d pid @ ''/'' @ name)) = None"
    by (rule ReadSymLink_fails)
  then show "\<not> fst (CheckSymLink fs pid m name msg)"
    by (simp add: CheckSymLink_def Let_def)
next
  assume "sys_lstat fs (parent @ d) = None \<or> sys_readlink fs (parent @ d) = None"
  then have "fst (ReadSymLink fs (parent @ d)) = None"
    by (rule ReadSymLink_fails)
  then show "fst (fd_loop fs pid m parent (d # rest)) = fst (fd_loop fs pid m parent rest)"
    by (rule fd_loop_skip)
next
  assume "sys_opendir fs ''/proc'' = None"
  then show "KillProcessesWithOpenFiles fs m action = [Opendir ''/proc'']"
    by (simp add: KillProcessesWithOpenFiles_def)
next
  assume "sys_opendir fs ''/proc'' = Some entries"
  then show "KillProcessesWithOpenFiles fs m action =
      Opendir ''/proc'' # concat (map (kill_entry fs m action) entries)"
    by (simp add: KillProcessesWithOpenFiles_def kill_loop_concat)
qed

theorem failures_are_absorbed_witness:
  "\<not> fst (CheckFileDescriptorSymLinks example_fs 7 ''/mnt/vol'') \<and>
   \<not> fst (CheckFileMaps example_fs 1 ''/mnt/vol'') \<and>
   \<not> fst (CheckFileMaps example_fs 9 ''/mnt/vol'') \<and>
   \<not> fst (CheckSymLink example_fs 1 ''/mnt/vol'' ''cwd'' ''working directory'') \<and>
   fst (fd_loop example_fs 9 ''/mnt/vol'' ''/proc/9/fd/'' [''4'', ''5'']) =
     fst (fd_loop example_fs 9 ''/mnt/vol'' ''/proc/9/fd/'' [''5'']) \<and>
   KillProcessesWithOpenFiles link_fs ''/mnt/vol'' 2 = [Opendir ''/proc''] \<and>
   KillProcessesWithOpenFiles example_fs ''/mnt/vol'' 2 =
     Opendir ''/proc'' # concat (map (kill_entry example_fs ''/mnt/vol'' 2)
       [''.'', ''..'', ''1'', ''42'', ''self'', ''7'', ''9'', ''11'', ''12'', ''uptime'']) \<and>
   signals (KillProcessesWithOpenFiles example_fs ''/mnt/vol'' 2) =
     [(42, SIGKILL), (7, SIGKILL), (9, SIGKILL), (11, SIGKILL), (12, SIGKILL)]"
proof -
  have f: "sys_opendir example_fs ''/proc/7/fd'' = None"
    "sys_open example_fs ''/proc/1/maps'' = CannotOpen"
    "sys_open example_fs ''/proc/9/maps'' = ReadFails"
    "sys_lstat example_fs ''/proc/1/cwd'' = None"
    "sys_readlink example_fs ''/proc/9/fd/4'' = None"
    by (simp_all add: example_fs_def)
  have o: "sys_opendir link_fs ''/proc'' = None"
    by (simp add: link_fs_def)
  have s: "signals (KillProcessesWithOpenFiles example_fs ''/mnt/vol'' 2) =
      [(42, SIGKILL), (7, SIGKILL), (9, SIGKILL), (11, SIGKILL), (12, SIGKILL)]"
    by (simp add: signals_run example_proc_entries example_holders)
  show ?thesis
    using failures_are_absorbed [where fs = example_fs and pid = 7 and m = "''/mnt/vol''" and
        name = "''cwd''" and msg = "''working directory''" and
        parent = "''/proc/9/fd/''" and d = "''4''" and rest = "[''5'']" and
        action = 2 and entries = "[''.'', ''..'', ''1'', ''42'', ''self'', ''7'', ''9'', ''11'', ''12'', ''uptime'']"]
      failures_are_absorbed [where fs = example_fs and pid = 1 and m = "''/mnt/vol''" and
        name = "''cwd''" and msg = "''working directory''" and
        parent = "''/proc/9/fd/''" and d = "''4''" and rest = "[''5'']" and
        action = 2 and entries = "[''.'', ''..'', ''1'', ''42'', ''self'', ''7'', ''9'', ''11'', ''12'', ''uptime'']"]
      failures_are_absorbed [where fs = example_fs and pid = 9 and m = "''/mnt/vol''" and
        name = "''cwd''" and msg = "''working directory''" and
        parent = "''/proc/9/fd/''" and d = "''4''" and rest = "[''5'']" and
        action = 2 and entries = "[''.'', ''..'', ''1'', ''42'', ''self'', ''7'', ''9'', ''11'', ''12'', ''uptime'']"]
      failures_are_absorbed [where fs = link_fs and pid = 9 and m = "''/mnt/vol''" and
        name = "''cwd''" and msg = "''working directory''" and
        parent = "''/proc/9/fd/''" and d = "''4''" and rest = "[''5'']" and
        action = 2 and entries = "[]"]
      f o s example_fmt_d example_proc_entries
    by simp
qed

subsection \<open>Memory maps\<close>

text \<open>
  The maps check holds exactly when the file opens and one of the buffers that \<open>fgets\<close>
  delivers has a slash from which on the buffer matches the mount point. A buffer with
  no slash is passed over, and a path that goes on with a slash after the mount point
  matches whatever follows.
\<close>

lemma strchr_Nil: "strchr [] c = None"
  by (simp add: strchr_def)

lemma strchr_Cons: "strchr (x # s) c = (if x = c then Some (x # s) else strchr s c)"
  by (simp add: strchr_def)

lemma strchr_cases:
  "(strchr s c = None \<and> c \<notin> set s) \<or>
   (strchr s c = Some (dropWhile (\<lambda>x. x \<noteq> c) s) \<and> c \<in> set s)"
  by (induction s) (auto simp: strchr_Nil strchr_Cons)

lemma strchr_None_iff: "strchr s c = None \<longleftrightarrow> c \<notin> set s"
  using strchr_cases [of s c] by auto

lemma strchr_Some_iff:
  "strchr s c = Some path \<longleftrightarrow> c \<in> set s \<and> path = dropWhile (\<lambda>x. x \<noteq> c) s"
  using strchr_cases [of s c] by auto

lemma maps_loop_iff:
  "fst (maps_loop fs pid m lines) \<longleftrightarrow>
     (\<exists>buffer\<in>set lines. \<exists>path. strchr (c_str buffer) CHR ''/'' = Some path \<and>
        PathMatchesMountPoint path m)"
proof (induction lines)
  case Nil
  show ?case by simp
next
  case (Cons l rest)
  then show ?case
    by (auto simp: Let_def split: option.splits)
qed

lemma CheckFileMaps_iff:
  "fst (CheckFileMaps fs pid m) \<longleftrightarrow>
     (\<exists>content. sys_open fs (''/proc/'' @ fmt_d pid @ ''/maps'') = Bytes content \<and>
        (\<exists>buffer\<in>set (fgets_lines content). \<exists>path.
           strchr (c_str buffer) CHR ''/'' = Some path \<and> PathMatchesMountPoint path m))"
  by (auto simp: CheckFileMaps_def Let_def maps_loop_iff split: file_node.splits)

lemma maps_line_without_slash:
  "CHR ''/'' \<notin> set (c_str buffer) \<Longrightarrow>
   maps_loop fs pid m (buffer # rest) = maps_loop fs pid m rest"
  by (simp add: strchr_None_iff [THEN iffD2])

lemma path_inside_matches:
  "1 < length m \<Longrightarrow> PathMatchesMountPoint (m @ CHR ''/'' # rest) m"
  by (simp add: PathMatchesMountPoint_iff char_at_def)

subsection \<open>What GetProcessName returns\<close>

lemma GetProcessName_result:
  "fst (GetProcessName fs pid) =
     (case sys_open fs (''/proc/'' @ fmt_d pid @ ''/cmdline'') of
        CannotOpen \<Rightarrow> Some ''???''
      | ReadFails \<Rightarrow> None
      | Bytes content \<Rightarrow> Some (c_str (take (PATH_MAX - 1) content)))"
  by (simp add: GetProcessName_def Let_def split: file_node.splits)

lemma c_str_no_NUL: "NUL \<notin> set (c_str buffer)"
  by (auto simp: c_str_def dest: set_takeWhileD)

lemma c_str_prefix: "prefix (c_str buffer) buffer"
  by (metis c_str_def takeWhile_dropWhile_id prefixI)

subsection \<open>Where the source departs from the specification\<close>

text \<open>
  Claim C5, at the input where the source departs from it. The maps line of process 42
  ends in a path equal to the mount point \<open>/mnt/vol\<close>. \<open>fgets\<close> keeps the newline, so
  the path handed to the matcher is \<open>/mnt/vol\<close> followed by a newline, which is neither
  the end of the string nor a slash: the check answers that the process does not hold,
  and the run sends no signal. The same path without the newline matches.
\<close>

theorem maps_line_equal_to_mount_point:
  "CheckFileMaps mapped_fs 42 ''/mnt/vol'' = (False, [Fopen ''/proc/42/maps'']) \<and>
   PathMatchesMountPoint ''/mnt/vol'' ''/mnt/vol'' \<and>
   KillProcessesWithOpenFiles mapped_fs ''/mnt/vol'' 2 =
     [Opendir ''/proc'', Opendir ''/proc/42/fd'', Fopen ''/proc/42/maps'',
      Lstat ''/proc/42/cwd'', Lstat ''/proc/42/root'', Lstat ''/proc/42/exe'']"
  by code_simp

text \<open>
  Claim C8, at the inputs where the source departs from it. The result of \<open>read\<close> is not
  looked at. A command line of no bytes gives the empty name, not \<open>???\<close>; a \<open>read\<close>
  that fails gives no defined name, the NUL being stored at index \<open>-1\<close>. Only a
  command line that cannot be opened gives \<open>???\<close>.
\<close>

theorem GetProcessName_unchecked_read:
  "fst (GetProcessName mapped_fs 42) = Some [] \<and>
   fst (GetProcessName mapped_fs 43) = None \<and>
   fst (GetProcessName mapped_fs 44) = Some ''???''"
  by code_simp

end
